theory Spec2Isabelle
  imports Main "HOL-Library.Word"
begin

section \<open>Data model of \<open>src/thread/thread.cpp\<close>\<close>

text \<open>
  The file implements class \<open>sylar::Thread\<close>: a handle around one POSIX thread, two
  thread-local variables (\<open>t_thread\<close>, \<open>t_thread_name\<close>), the constructor, the destructor,
  \<open>join\<close>, the entry function \<open>run\<close> and the static accessors.

  Platform types: \<open>pthread_t\<close> is an unsigned 64-bit value, \<open>pid_t\<close> a 32-bit one, the
  result of \<open>syscall\<close> a C \<open>long\<close>. A \<open>Thread*\<close> is an address. The return codes of
  \<open>pthread_create\<close> and \<open>pthread_join\<close> are C \<open>int\<close>s that the code only compares with 0
  and prints; they are modelled as \<open>int\<close>.
\<close>

type_synonym pthread_t = "64 word"
type_synonym pid_t = "32 word"
type_synonym addr = nat

text \<open>
  Exceptions. \<open>std::logic_error\<close> carries nothing but its message (\<open>what()\<close>);
  \<open>std::bad_function_call\<close> is what calling an empty \<open>std::function\<close> throws;
  \<open>Cb_exception\<close> stands for whatever a callable throws.
\<close>

datatype error = Logic_error string | Bad_function_call | Cb_exception

text \<open>What is written to \<open>std::cerr\<close>, one item for each \<open><<\<close>.\<close>

datatype out = Out_str string | Out_int int | Out_endl

text \<open>
  Modelled from the spec: class \<open>Semaphore\<close> is declared in \<open>thread.h\<close>, which is not among
  the sources. The specification asks for a signal-and-wait primitive where "wait blocks until
  exactly one signal has occurred, and signal-before-wait is valid": a counter that starts
  at 0, \<open>signal\<close> increments it, \<open>wait\<close> blocks (\<open>None\<close>) while it is 0 and decrements it
  otherwise.
\<close>

type_synonym Semaphore = nat

definition Semaphore_init :: Semaphore where
  "Semaphore_init = 0"

definition sem_wait :: "Semaphore \<Rightarrow> Semaphore option" where
  "sem_wait c = (if c = 0 then None else Some (c - 1))"

definition sem_signal :: "Semaphore \<Rightarrow> Semaphore" where
  "sem_signal c = c + 1"

text \<open>
  The members of \<open>Thread\<close> that the code reads and writes. \<open>m_cb\<close> is a
  \<open>std::function<void()>\<close>, which may be empty (\<open>None\<close>); the callable itself is opaque
  (type \<open>'cb\<close>).
\<close>

record 'cb Thread =
  m_id :: pid_t
  m_thread :: pthread_t
  m_cb :: "'cb option"
  m_name :: string
  m_semaphore :: Semaphore

text \<open>Lines 10-11: the thread-local variables, one copy per thread, and their initial values.\<close>

record tls =
  t_thread :: "addr option"
  t_thread_name :: string

definition tls_init :: tls where
  "tls_init = \<lparr>t_thread = None, t_thread_name = ''UNKNOWN''\<rparr>"

section \<open>Static accessors (lines 20-51)\<close>

text \<open>
  \<open>GetThreadId\<close> returns \<open>syscall(SYS_gettid)\<close>: a \<open>long\<close> converted to \<open>pid_t\<close>. The
  kernel's answer is the argument.
\<close>

definition GetThreadId :: "64 word \<Rightarrow> pid_t" where
  "GetThreadId sys_gettid = ucast sys_gettid"

definition GetThis :: "tls \<Rightarrow> addr option" where
  "GetThis tv = t_thread tv"

definition GetName :: "tls \<Rightarrow> string" where
  "GetName tv = t_thread_name tv"

text \<open>
  \<open>SetName\<close> runs on the calling thread's variables \<open>tv\<close> and on the store of live
  \<open>Thread\<close> objects. When \<open>t_thread\<close> is not null the code writes through it; a pointer to
  an object that no longer exists makes that write undefined behaviour (\<open>None\<close>).
\<close>

definition SetName :: "string \<Rightarrow> tls \<times> (addr \<rightharpoonup> 'cb Thread) \<Rightarrow> (tls \<times> (addr \<rightharpoonup> 'cb Thread)) option" where
  "SetName name s =
     (case s of (tv, hp) \<Rightarrow>
        (case t_thread tv of
           None \<Rightarrow> Some (tv\<lparr>t_thread_name := name\<rparr>, hp)
         | Some a \<Rightarrow>
             (case hp a of
                None \<Rightarrow> None
              | Some h \<Rightarrow> Some (tv\<lparr>t_thread_name := name\<rparr>, hp(a \<mapsto> h\<lparr>m_name := name\<rparr>)))))"

section \<open>Constructor and entry function as two interleaved threads\<close>

text \<open>
  What the platform answers during one construction: the return code of
  \<open>pthread_create\<close>, the id it stores on success, the value \<open>syscall(SYS_gettid)\<close> returns in
  the new thread, and the OS-level name the new thread starts with.
\<close>

record platform =
  pthread_create_rt :: int
  pthread_create_id :: pthread_t
  sys_gettid :: "64 word"
  inherited_comm :: string

text \<open>
  One call of the constructor: its two arguments, the address of the object under
  construction, the values \<open>m_id\<close> and \<open>m_thread\<close> have before the constructor body runs (their
  initialisers are in \<open>thread.h\<close>, so they are parameters here), and the thread-local variables
  of the calling thread.
\<close>

record 'cb ctor_call =
  arg_cb :: "'cb option"
  arg_name :: string
  this_addr :: addr
  id_init :: pid_t
  thread_init :: pthread_t
  caller_tls :: tls

datatype thread = Creator | Spawned

text \<open>
  The callable is user code. What it does to the state of this file it does through
  \<open>Thread::SetName\<close>, and it ends in one of three ways: it returns, it throws, or it never
  returns. A callable is described by the names it passes to \<open>SetName\<close>, in order, and by
  its ending.
\<close>

datatype ending = Returns | Throws | Never_returns

record callable =
  cb_set_names :: "string list"
  cb_ending :: ending

text \<open>Program counters: the statement a thread executes next.\<close>

datatype ctor_pc =
    K_create            \<comment> \<open>line 57\<close>
  | K_wait              \<comment> \<open>line 64\<close>
  | K_returned
  | K_thrown error      \<comment> \<open>line 61\<close>

datatype run_pc =
    R_unstarted         \<comment> \<open>no thread yet\<close>
  | R_tls_thread        \<comment> \<open>line 95\<close>
  | R_tls_name          \<comment> \<open>line 96\<close>
  | R_id                \<comment> \<open>line 97\<close>
  | R_setname           \<comment> \<open>line 99\<close>
  | R_swap              \<comment> \<open>lines 102-103\<close>
  | R_signal            \<comment> \<open>line 106\<close>
  | R_call              \<comment> \<open>line 108\<close>
  | R_in_cb nat         \<comment> \<open>inside the callable, after that many calls of \<open>SetName\<close>\<close>
  | R_return            \<comment> \<open>line 109\<close>
  | R_exited
  | R_terminated error  \<comment> \<open>an exception left the entry function\<close>

text \<open>What a statement did, recorded with the thread that executed it.\<close>

datatype 'cb event =
    Ev_pthread_create int
  | Ev_throw error
  | Ev_sem_wait
  | Ev_ctor_return
  | Ev_tls_thread addr
  | Ev_tls_name string
  | Ev_store_id pid_t
  | Ev_setname_np string
  | Ev_swap_cb
  | Ev_sem_signal
  | Ev_invoke 'cb
  | Ev_SetName string
  | Ev_cb_return
  | Ev_run_return

record 'cb world =
  this_obj :: "'cb Thread"          \<comment> \<open>the object under construction\<close>
  cpc :: ctor_pc
  rpc :: run_pc
  tlss :: "thread \<Rightarrow> tls"
  run_cb :: "'cb option"            \<comment> \<open>the local \<open>cb\<close> of \<open>run\<close>\<close>
  caller_cb :: "'cb option"         \<comment> \<open>the callable the caller passed a copy of\<close>
  comm :: string                    \<comment> \<open>OS-level name of the new thread\<close>
  cerr :: "out list"
  events :: "(thread \<times> 'cb event) list"

text \<open>
  \<open>c_str()\<close> ends at the first NUL character; \<open>substr(0, 15)\<close> keeps at most 15 characters
  (position 0 is never out of range). \<open>pthread_setname_np\<close> refuses names longer than 15
  characters with \<open>ERANGE\<close> (34) and otherwise sets the name; the code ignores its result.
\<close>

definition c_str :: "string \<Rightarrow> string" where
  "c_str s = takeWhile (\<lambda>ch. ch \<noteq> CHR 0x00) s"

definition substr :: "string \<Rightarrow> nat \<Rightarrow> nat \<Rightarrow> string" where
  "substr s pos n = take n (drop pos s)"

definition pthread_setname_np :: "string \<Rightarrow> string \<Rightarrow> int \<times> string" where
  "pthread_setname_np nm old = (if 15 < length nm then (34, old) else (0, nm))"

text \<open>
  Lines 53-54: \<open>cb\<close> is passed by value, so the constructor works on a copy and the
  caller keeps its own callable; the member initialisers copy the arguments into the new
  object. The new thread does not exist yet; its thread-local variables will start from
  \<open>tls_init\<close>.
\<close>

definition ctor_entry :: "platform \<Rightarrow> 'cb ctor_call \<Rightarrow> 'cb world" where
  "ctor_entry p c =
     \<lparr>this_obj = \<lparr>m_id = id_init c, m_thread = thread_init c, m_cb = arg_cb c,
                  m_name = arg_name c, m_semaphore = Semaphore_init\<rparr>,
      cpc = K_create,
      rpc = R_unstarted,
      tlss = (\<lambda>t. case t of Creator \<Rightarrow> caller_tls c | Spawned \<Rightarrow> tls_init),
      run_cb = None,
      caller_cb = arg_cb c,
      comm = inherited_comm p,
      cerr = [],
      events = []\<rparr>"

text \<open>
  Lines 57-64, one statement at a time. A failing \<open>pthread_create\<close> writes to \<open>cerr\<close> and
  throws (what it leaves in \<open>m_thread\<close> is unspecified and never read: the object is gone);
  a successful one stores the new id and starts the new thread at \<open>run\<close>. The wait on
  line 64 is enabled only when the semaphore lets it through.
\<close>

definition ctor_step :: "platform \<Rightarrow> 'cb ctor_call \<Rightarrow> 'cb world \<Rightarrow> 'cb world option" where
  "ctor_step p c w =
     (case cpc w of
        K_create \<Rightarrow>
          (if pthread_create_rt p \<noteq> 0 then
             Some (w\<lparr>cerr := cerr w @ [Out_str ''pthread_create thread fail, rt='',
                                       Out_int (pthread_create_rt p),
                                       Out_str '' name='', Out_str (arg_name c)],
                     cpc := K_thrown (Logic_error ''pthread_create error''),
                     events := events w @ [(Creator, Ev_pthread_create (pthread_create_rt p)),
                                           (Creator, Ev_throw (Logic_error ''pthread_create error''))]\<rparr>)
           else
             Some (w\<lparr>this_obj := (this_obj w)\<lparr>m_thread := pthread_create_id p\<rparr>,
                     cpc := K_wait,
                     rpc := R_tls_thread,
                     events := events w @ [(Creator, Ev_pthread_create 0)]\<rparr>))
      | K_wait \<Rightarrow>
          (case sem_wait (m_semaphore (this_obj w)) of
             None \<Rightarrow> None
           | Some n \<Rightarrow>
               Some (w\<lparr>this_obj := (this_obj w)\<lparr>m_semaphore := n\<rparr>,
                       cpc := K_returned,
                       events := events w @ [(Creator, Ev_sem_wait), (Creator, Ev_ctor_return)]\<rparr>))
      | K_returned \<Rightarrow> None
      | K_thrown e \<Rightarrow> None)"

text \<open>
  Lines 93-109, one statement at a time; \<open>thread\<close> is the object at \<open>this_addr c\<close>. Calling
  an empty \<open>std::function\<close> throws. Inside the callable, each call of \<open>SetName\<close> is one
  step and runs \<open>SetName\<close> itself on the new thread's variables and on the object; after
  the last one the callable returns to line 109, or throws, or stays where it is for ever.
  \<open>run\<close> catches nothing, so an exception that leaves the callable leaves the entry function
  and ends the process.
\<close>

definition run_step :: "platform \<Rightarrow> callable ctor_call \<Rightarrow> callable world \<Rightarrow> callable world option" where
  "run_step p c w =
     (case rpc w of
        R_unstarted \<Rightarrow> None
      | R_tls_thread \<Rightarrow>
          Some (w\<lparr>tlss := (tlss w)(Spawned := (tlss w Spawned)\<lparr>t_thread := Some (this_addr c)\<rparr>),
                  rpc := R_tls_name,
                  events := events w @ [(Spawned, Ev_tls_thread (this_addr c))]\<rparr>)
      | R_tls_name \<Rightarrow>
          Some (w\<lparr>tlss := (tlss w)(Spawned := (tlss w Spawned)\<lparr>t_thread_name := m_name (this_obj w)\<rparr>),
                  rpc := R_id,
                  events := events w @ [(Spawned, Ev_tls_name (m_name (this_obj w)))]\<rparr>)
      | R_id \<Rightarrow>
          Some (w\<lparr>this_obj := (this_obj w)\<lparr>m_id := GetThreadId (sys_gettid p)\<rparr>,
                  rpc := R_setname,
                  events := events w @ [(Spawned, Ev_store_id (GetThreadId (sys_gettid p)))]\<rparr>)
      | R_setname \<Rightarrow>
          Some (w\<lparr>comm := snd (pthread_setname_np (c_str (substr (m_name (this_obj w)) 0 15)) (comm w)),
                  rpc := R_swap,
                  events := events w @ [(Spawned, Ev_setname_np (c_str (substr (m_name (this_obj w)) 0 15)))]\<rparr>)
      | R_swap \<Rightarrow>
          Some (w\<lparr>this_obj := (this_obj w)\<lparr>m_cb := run_cb w\<rparr>,
                  run_cb := m_cb (this_obj w),
                  rpc := R_signal,
                  events := events w @ [(Spawned, Ev_swap_cb)]\<rparr>)
      | R_signal \<Rightarrow>
          Some (w\<lparr>this_obj := (this_obj w)\<lparr>m_semaphore := sem_signal (m_semaphore (this_obj w))\<rparr>,
                  rpc := R_call,
                  events := events w @ [(Spawned, Ev_sem_signal)]\<rparr>)
      | R_call \<Rightarrow>
          (case run_cb w of
             None \<Rightarrow>
               Some (w\<lparr>rpc := R_terminated Bad_function_call,
                       events := events w @ [(Spawned, Ev_throw Bad_function_call)]\<rparr>)
           | Some f \<Rightarrow>
               Some (w\<lparr>rpc := R_in_cb 0,
                       events := events w @ [(Spawned, Ev_invoke f)]\<rparr>))
      | R_in_cb k \<Rightarrow>
          (case run_cb w of
             None \<Rightarrow> None
           | Some f \<Rightarrow>
               (if k < length (cb_set_names f) then
                  (case SetName (cb_set_names f ! k) (tlss w Spawned, [this_addr c \<mapsto> this_obj w]) of
                     None \<Rightarrow> None
                   | Some (tv', hp') \<Rightarrow>
                       (case hp' (this_addr c) of
                          None \<Rightarrow> None
                        | Some h' \<Rightarrow>
                            Some (w\<lparr>this_obj := h',
                                    tlss := (tlss w)(Spawned := tv'),
                                    rpc := R_in_cb (Suc k),
                                    events := events w @ [(Spawned, Ev_SetName (cb_set_names f ! k))]\<rparr>)))
                else
                  (case cb_ending f of
                     Returns \<Rightarrow>
                       Some (w\<lparr>rpc := R_return,
                               events := events w @ [(Spawned, Ev_cb_return)]\<rparr>)
                   | Throws \<Rightarrow>
                       Some (w\<lparr>rpc := R_terminated Cb_exception,
                               events := events w @ [(Spawned, Ev_throw Cb_exception)]\<rparr>)
                   | Never_returns \<Rightarrow> None)))
      | R_return \<Rightarrow>
          Some (w\<lparr>rpc := R_exited,
                  events := events w @ [(Spawned, Ev_run_return)]\<rparr>)
      | R_exited \<Rightarrow> None
      | R_terminated e \<Rightarrow> None)"

text \<open>
  One step of the chosen thread; nothing runs once the process has been terminated. A
  schedule is the list of threads the OS picks, and a pick of a thread that cannot move
  (blocked, finished, not started) changes nothing.
\<close>

definition step :: "platform \<Rightarrow> callable ctor_call \<Rightarrow> thread \<Rightarrow> callable world \<Rightarrow> callable world option" where
  "step p c t w =
     (case rpc w of
        R_terminated e \<Rightarrow> None
      | _ \<Rightarrow> (case t of Creator \<Rightarrow> ctor_step p c w | Spawned \<Rightarrow> run_step p c w))"

fun exec :: "platform \<Rightarrow> callable ctor_call \<Rightarrow> thread list \<Rightarrow> callable world \<Rightarrow> callable world" where
  "exec p c [] w = w"
| "exec p c (t # ts) w = exec p c ts (case step p c t w of None \<Rightarrow> w | Some w' \<Rightarrow> w')"

text \<open>The worlds a construction can be in: any schedule from the constructor's entry.\<close>

definition construct :: "platform \<Rightarrow> callable ctor_call \<Rightarrow> thread list \<Rightarrow> callable world" where
  "construct p c sched = exec p c sched (ctor_entry p c)"

text \<open>
  What the caller of the constructor gets: the object once the constructor has returned, the
  exception once it has thrown, nothing while it is still running.
\<close>

definition ctor_result :: "'cb world \<Rightarrow> (error + 'cb Thread) option" where
  "ctor_result w =
     (case cpc w of
        K_returned \<Rightarrow> Some (Inr (this_obj w))
      | K_thrown e \<Rightarrow> Some (Inl e)
      | _ \<Rightarrow> None)"

text \<open>The events of one thread, in order, and the invocations of a callable.\<close>

definition events_of :: "thread \<Rightarrow> 'cb world \<Rightarrow> 'cb event list" where
  "events_of t w = map snd (filter (\<lambda>e. fst e = t) (events w))"

fun is_invoke :: "'cb event \<Rightarrow> bool" where
  "is_invoke (Ev_invoke f) = True"
| "is_invoke _ = False"

definition invocations :: "'cb world \<Rightarrow> (thread \<times> 'cb event) list" where
  "invocations w = filter (\<lambda>e. is_invoke (snd e)) (events w)"

text \<open>The names the callable has passed to \<open>SetName\<close> so far, in order.\<close>

fun set_name_of :: "'cb event \<Rightarrow> string list" where
  "set_name_of (Ev_SetName n) = [n]"
| "set_name_of _ = []"

definition set_names :: "'cb world \<Rightarrow> string list" where
  "set_names w = concat (map (\<lambda>e. set_name_of (snd e)) (events w))"

text \<open>
  The names the callable of a constructor call will pass to \<open>SetName\<close>, and how many of
  them it has passed at a program counter.
\<close>

definition names_of :: "callable ctor_call \<Rightarrow> string list" where
  "names_of c = (case arg_cb c of None \<Rightarrow> [] | Some f \<Rightarrow> cb_set_names f)"

fun renamed :: "callable ctor_call \<Rightarrow> run_pc \<Rightarrow> nat" where
  "renamed c (R_in_cb k) = k"
| "renamed c R_return = length (names_of c)"
| "renamed c R_exited = length (names_of c)"
| "renamed c (R_terminated Cb_exception) = length (names_of c)"
| "renamed c _ = 0"

text \<open>
  The number of steps the new thread has executed: the six statements before the call, the
  call, each \<open>SetName\<close> inside the callable, the callable's return or throw, the return of
  \<open>run\<close>.
\<close>

fun done_steps :: "callable ctor_call \<Rightarrow> run_pc \<Rightarrow> nat" where
  "done_steps c R_unstarted = 0"
| "done_steps c R_tls_thread = 0"
| "done_steps c R_tls_name = 1"
| "done_steps c R_id = 2"
| "done_steps c R_setname = 3"
| "done_steps c R_swap = 4"
| "done_steps c R_signal = 5"
| "done_steps c R_call = 6"
| "done_steps c (R_in_cb k) = 7 + k"
| "done_steps c R_return = 8 + length (names_of c)"
| "done_steps c R_exited = 9 + length (names_of c)"
| "done_steps c (R_terminated Cb_exception) = 8 + length (names_of c)"
| "done_steps c (R_terminated e) = 7"

text \<open>
  The steps of \<open>run\<close> in source order, as the events they leave: the six statements before
  the call, then the call and what the callable does.
\<close>

definition init_trace :: "platform \<Rightarrow> callable ctor_call \<Rightarrow> callable event list" where
  "init_trace p c =
     [Ev_tls_thread (this_addr c),
      Ev_tls_name (arg_name c),
      Ev_store_id (GetThreadId (sys_gettid p)),
      Ev_setname_np (c_str (substr (arg_name c) 0 15)),
      Ev_swap_cb,
      Ev_sem_signal]"

definition call_trace :: "callable ctor_call \<Rightarrow> callable event list" where
  "call_trace c =
     (case arg_cb c of
        None \<Rightarrow> [Ev_throw Bad_function_call]
      | Some f \<Rightarrow>
          Ev_invoke f # map Ev_SetName (cb_set_names f) @
          (case cb_ending f of
             Returns \<Rightarrow> [Ev_cb_return, Ev_run_return]
           | Throws \<Rightarrow> [Ev_throw Cb_exception]
           | Never_returns \<Rightarrow> []))"


section \<open>Destructor and join (lines 67-89)\<close>

text \<open>
  The owner's side: the object and what the platform has seen. Every call of
  \<open>pthread_join\<close> and \<open>pthread_detach\<close> is recorded with its argument (and the code
  \<open>pthread_join\<close> returned).
\<close>

datatype syscall = Pthread_join pthread_t int | Pthread_detach pthread_t

record os =
  calls :: "syscall list"
  os_cerr :: "out list"

text \<open>
  \<open>join\<close>: \<open>rt\<close> is the code \<open>pthread_join\<close> returns if this call reaches it (the call
  itself blocks until the thread has ended, which is the platform's business). The result
  is the exception thrown, or \<open>()\<close>, together with the object and the platform afterwards.
\<close>

definition join :: "int \<Rightarrow> 'cb Thread \<times> os \<Rightarrow> (error + unit) \<times> ('cb Thread \<times> os)" where
  "join rt s =
     (case s of (h, k) \<Rightarrow>
        (if m_thread h \<noteq> 0 then
           (if rt \<noteq> 0 then
              (Inl (Logic_error ''pthread_join error''),
               (h, k\<lparr>calls := calls k @ [Pthread_join (m_thread h) rt],
                     os_cerr := os_cerr k @ [Out_str ''pthread_join failed, rt = '', Out_int rt,
                                             Out_str '', name = '', Out_str (m_name h), Out_endl]\<rparr>))
            else
              (Inr (), (h\<lparr>m_thread := 0\<rparr>, k\<lparr>calls := calls k @ [Pthread_join (m_thread h) rt]\<rparr>)))
         else (Inr (), (h, k))))"

text \<open>The destructor body; the members' values when it ends are returned with the platform.\<close>

definition dtor :: "'cb Thread \<times> os \<Rightarrow> 'cb Thread \<times> os" where
  "dtor s =
     (case s of (h, k) \<Rightarrow>
        (if m_thread h \<noteq> 0 then
           (h\<lparr>m_thread := 0\<rparr>, k\<lparr>calls := calls k @ [Pthread_detach (m_thread h)]\<rparr>)
         else (h, k)))"

text \<open>
  A sequence of \<open>join\<close> calls, each with the code the platform would answer; the caller
  catches an exception and goes on.
\<close>

fun joins :: "int list \<Rightarrow> 'cb Thread \<times> os \<Rightarrow> 'cb Thread \<times> os" where
  "joins [] s = s"
| "joins (rt # rts) s = joins rts (snd (join rt s))"

text \<open>
  The thread resource \<open>th\<close> is attached until a \<open>pthread_join\<close> on it succeeds or it is
  detached; \<open>releases\<close> counts those, \<open>passes\<close> every call that was given \<open>th\<close>.
\<close>

fun releases_call :: "pthread_t \<Rightarrow> syscall \<Rightarrow> bool" where
  "releases_call th (Pthread_join t rt) = (t = th \<and> rt = 0)"
| "releases_call th (Pthread_detach t) = (t = th)"

fun passes_call :: "pthread_t \<Rightarrow> syscall \<Rightarrow> bool" where
  "passes_call th (Pthread_join t rt) = (t = th)"
| "passes_call th (Pthread_detach t) = (t = th)"

definition releases :: "pthread_t \<Rightarrow> syscall list \<Rightarrow> nat" where
  "releases th cs = length (filter (releases_call th) cs)"

definition passes :: "pthread_t \<Rightarrow> syscall list \<Rightarrow> nat" where
  "passes th cs = length (filter (passes_call th) cs)"

definition attached :: "pthread_t \<Rightarrow> syscall list \<Rightarrow> bool" where
  "attached th cs = (releases th cs = 0)"

section \<open>What holds in every reachable world\<close>

text \<open>
  The creator's side, by program counter: what it has written, logged and been answered.
  The semaphore holds one token exactly between the signal on line 106 and the wait on
  line 64.
\<close>

definition creator_inv :: "platform \<Rightarrow> callable ctor_call \<Rightarrow> callable world \<Rightarrow> bool" where
  "creator_inv p c w =
     (case cpc w of
        K_create \<Rightarrow>
          rpc w = R_unstarted \<and> cerr w = [] \<and> events_of Creator w = [] \<and>
          m_thread (this_obj w) = thread_init c \<and> m_semaphore (this_obj w) = 0
      | K_thrown e \<Rightarrow>
          rpc w = R_unstarted \<and> pthread_create_rt p \<noteq> 0 \<and>
          e = Logic_error ''pthread_create error'' \<and>
          cerr w = [Out_str ''pthread_create thread fail, rt='', Out_int (pthread_create_rt p),
                    Out_str '' name='', Out_str (arg_name c)] \<and>
          events_of Creator w = [Ev_pthread_create (pthread_create_rt p), Ev_throw e] \<and>
          m_thread (this_obj w) = thread_init c \<and> m_semaphore (this_obj w) = 0
      | K_wait \<Rightarrow>
          rpc w \<noteq> R_unstarted \<and> pthread_create_rt p = 0 \<and> cerr w = [] \<and>
          events_of Creator w = [Ev_pthread_create 0] \<and>
          m_thread (this_obj w) = pthread_create_id p \<and>
          m_semaphore (this_obj w) = (if 6 \<le> done_steps c (rpc w) then 1 else 0)
      | K_returned \<Rightarrow>
          6 \<le> done_steps c (rpc w) \<and> pthread_create_rt p = 0 \<and> cerr w = [] \<and>
          events_of Creator w = [Ev_pthread_create 0, Ev_sem_wait, Ev_ctor_return] \<and>
          m_thread (this_obj w) = pthread_create_id p \<and>
          m_semaphore (this_obj w) = 0)"

text \<open>
  The new thread's side: each statement of \<open>run\<close> has left its effect exactly when the
  program counter is past it, and the two names are the constructor's argument until the
  callable passes another one to \<open>SetName\<close>.
\<close>

definition spawned_inv :: "platform \<Rightarrow> callable ctor_call \<Rightarrow> callable world \<Rightarrow> bool" where
  "spawned_inv p c w =
     (events_of Spawned w =
        take (done_steps c (rpc w)) (init_trace p c) @ take (done_steps c (rpc w) - 6) (call_trace c) \<and>
      set_names w = take (renamed c (rpc w)) (names_of c) \<and>
      renamed c (rpc w) \<le> length (names_of c) \<and>
      m_name (this_obj w) = last (arg_name c # take (renamed c (rpc w)) (names_of c)) \<and>
      t_thread (tlss w Spawned) = (if 1 \<le> done_steps c (rpc w) then Some (this_addr c) else None) \<and>
      t_thread_name (tlss w Spawned) =
        (if 2 \<le> done_steps c (rpc w)
         then last (arg_name c # take (renamed c (rpc w)) (names_of c)) else ''UNKNOWN'') \<and>
      m_id (this_obj w) = (if 3 \<le> done_steps c (rpc w) then GetThreadId (sys_gettid p) else id_init c) \<and>
      comm w = (if 4 \<le> done_steps c (rpc w) then c_str (substr (arg_name c) 0 15) else inherited_comm p) \<and>
      m_cb (this_obj w) = (if 5 \<le> done_steps c (rpc w) then None else arg_cb c) \<and>
      run_cb w = (if 5 \<le> done_steps c (rpc w) then arg_cb c else None) \<and>
      (7 \<le> done_steps c (rpc w) \<and> rpc w \<noteq> R_terminated Bad_function_call \<longrightarrow> arg_cb c \<noteq> None) \<and>
      (\<forall>e. rpc w = R_terminated e \<longrightarrow>
           e = Bad_function_call \<and> arg_cb c = None \<or>
           e = Cb_exception \<and> map_option cb_ending (arg_cb c) = Some Throws) \<and>
      (rpc w = R_return \<or> rpc w = R_exited \<longrightarrow> map_option cb_ending (arg_cb c) = Some Returns) \<and>
      invocations w =
        (if 7 \<le> done_steps c (rpc w)
         then (case arg_cb c of None \<Rightarrow> [] | Some f \<Rightarrow> [(Spawned, Ev_invoke f)])
         else []))"

definition reach_inv :: "platform \<Rightarrow> callable ctor_call \<Rightarrow> callable world \<Rightarrow> bool" where
  "reach_inv p c w =
     (caller_cb w = arg_cb c \<and> tlss w Creator = caller_tls c \<and>
      creator_inv p c w \<and> spawned_inv p c w)"


text \<open>A concrete platform and a concrete constructor call, for evaluating the model.\<close>

definition p_ok :: platform where
  "p_ok = \<lparr>pthread_create_rt = 0, pthread_create_id = 140, sys_gettid = 4242,
           inherited_comm = ''main''\<rparr>"

definition f_demo :: callable where
  "f_demo = \<lparr>cb_set_names = [''renamed-by-the-callable''], cb_ending = Returns\<rparr>"

definition c_demo :: "callable ctor_call" where
  "c_demo = \<lparr>arg_cb = Some f_demo, arg_name = ''worker-thread-number-one'', this_addr = 4096,
             id_init = 0, thread_init = 0, caller_tls = tls_init\<rparr>"

definition f_throws :: callable where
  "f_throws = \<lparr>cb_set_names = [], cb_ending = Throws\<rparr>"

definition c_throws :: "callable ctor_call" where
  "c_throws = \<lparr>arg_cb = Some f_throws, arg_name = ''worker-thread-number-one'', this_addr = 4096,
               id_init = 0, thread_init = 0, caller_tls = tls_init\<rparr>"

definition c_empty :: "callable ctor_call" where
  "c_empty = \<lparr>arg_cb = None, arg_name = ''worker-thread-number-one'', this_addr = 4096,
              id_init = 0, thread_init = 0, caller_tls = tls_init\<rparr>"

definition sched_init :: "thread list" where
  "sched_init = [Creator, Spawned, Spawned, Spawned, Spawned, Spawned, Spawned, Creator]"


definition sched_renamed :: "thread list" where
  "sched_renamed = [Creator, Spawned, Spawned, Spawned, Spawned, Spawned, Spawned, Spawned, Spawned, Creator]"

definition sched_full :: "thread list" where
  "sched_full = [Creator, Spawned, Spawned, Spawned, Spawned, Spawned, Spawned, Spawned, Creator, Spawned, Spawned, Spawned]"

text \<open>
  The owner's side. For a thread id \<open>th\<close> that is not 0: either the object still holds
  \<open>th\<close> and nothing has released it, or the field is 0 and exactly one call has.
\<close>

definition owner_inv :: "pthread_t \<Rightarrow> 'cb Thread \<times> os \<Rightarrow> bool" where
  "owner_inv th s =
     (m_thread (fst s) = th \<and> releases th (calls (snd s)) = 0 \<or>
      m_thread (fst s) = 0 \<and> releases th (calls (snd s)) = 1)"

text \<open>A concrete object, as a successful construction leaves it, and a fresh platform.\<close>

definition h_demo :: "nat Thread" where
  "h_demo = \<lparr>m_id = 4242, m_thread = 140, m_cb = None, m_name = ''worker-1'', m_semaphore = 0\<rparr>"

definition k_demo :: os where
  "k_demo = \<lparr>calls = [], os_cerr = []\<rparr>"


text \<open>The thread-local variables of a thread that \<open>run\<close> has initialised for the object at 4096.\<close>

definition tv_demo :: tls where
  "tv_demo = \<lparr>t_thread = Some 4096, t_thread_name = ''worker-1''\<rparr>"

section \<open>Lemmas\<close>

lemma length_c_str_substr: "length (c_str (substr s 0 15)) \<le> 15"
  unfolding c_str_def substr_def
  by (rule order_trans [OF length_takeWhile_le]) simp

lemma reach_inv_entry: "reach_inv p c (ctor_entry p c)"
  by (simp add: reach_inv_def creator_inv_def spawned_inv_def ctor_entry_def events_of_def
      tls_init_def Semaphore_init_def invocations_def set_names_def)

lemma reach_inv_ctor_step:
  assumes "reach_inv p c w" and "ctor_step p c w = Some w'"
  shows "reach_inv p c w'"
proof -
  from assms(2) have w': "w' = the (ctor_step p c w)" by simp
  show ?thesis
  proof (cases "cpc w")
    case K_create
    with assms(1) show ?thesis unfolding w'
      by (cases "pthread_create_rt p = 0")
         (simp_all add: ctor_step_def reach_inv_def creator_inv_def spawned_inv_def events_of_def
            invocations_def set_names_def)
  next
    case K_wait
    with assms show ?thesis unfolding w'
      by (cases "6 \<le> done_steps c (rpc w)")
         (simp_all add: ctor_step_def sem_wait_def reach_inv_def creator_inv_def spawned_inv_def
            events_of_def invocations_def set_names_def)
  next
    case K_returned
    with assms show ?thesis by (simp add: ctor_step_def)
  next
    case (K_thrown e)
    with assms show ?thesis by (simp add: ctor_step_def)
  qed
qed

lemma call_trace_take:
  assumes "arg_cb c = Some f" and "k \<le> length (cb_set_names f)"
  shows "take (Suc k) (call_trace c) = Ev_invoke f # map Ev_SetName (take k (cb_set_names f))"
  using assms by (simp add: call_trace_def take_map)

lemma call_trace_returns:
  assumes "arg_cb c = Some f" and "cb_ending f = Returns"
  shows "take (Suc (Suc (length (cb_set_names f)))) (call_trace c) =
           Ev_invoke f # map Ev_SetName (cb_set_names f) @ [Ev_cb_return]"
    and "take (Suc (Suc (Suc (length (cb_set_names f))))) (call_trace c) = call_trace c"
  using assms by (simp_all add: call_trace_def)

lemma call_trace_throws:
  assumes "arg_cb c = Some f" and "cb_ending f = Throws"
  shows "take (Suc (Suc (length (cb_set_names f)))) (call_trace c) =
           Ev_invoke f # map Ev_SetName (cb_set_names f) @ [Ev_throw Cb_exception]"
  using assms by (simp add: call_trace_def)

lemma take_Suc_last: "k < length xs \<Longrightarrow> last (x # take (Suc k) xs) = xs ! k"
  by (simp add: take_Suc_conv_app_nth)

lemma reach_inv_in_cb:
  assumes inv: "reach_inv p c w" and pc: "rpc w = R_in_cb k" and st: "run_step p c w = Some w'"
  shows "reach_inv p c w'"
proof -
  from st have w': "w' = the (run_step p c w)" by simp
  from inv pc obtain f where f: "arg_cb c = Some f" "run_cb w = Some f"
    and k: "k \<le> length (cb_set_names f)"
    and tt: "t_thread (tlss w Spawned) = Some (this_addr c)"
    by (cases "arg_cb c") (auto simp: reach_inv_def spawned_inv_def names_of_def)
  from inv pc have started: "cpc w = K_wait \<or> cpc w = K_returned"
    by (cases "cpc w") (simp_all add: reach_inv_def creator_inv_def)
  note defs = run_step_def reach_inv_def creator_inv_def spawned_inv_def events_of_def
      invocations_def set_names_def names_of_def SetName_def init_trace_def
  show ?thesis
  proof (cases "k < length (cb_set_names f)")
    case True
    then have sk: "Suc k \<le> length (cb_set_names f)" by simp
    from inv pc f tt True started call_trace_take [OF f(1) k] call_trace_take [OF f(1) sk]
    show ?thesis unfolding w'
      by (auto simp: defs take_Suc_conv_app_nth)
  next
    case False
    with k have kl: "k = length (cb_set_names f)" by simp
    show ?thesis
    proof (cases "cb_ending f")
      case Returns
      from inv pc f tt kl started Returns call_trace_take [OF f(1) k] call_trace_returns [OF f(1) Returns]
      show ?thesis unfolding w'
        by (auto simp: defs)
    next
      case Throws
      from inv pc f tt kl started Throws call_trace_take [OF f(1) k] call_trace_throws [OF f(1) Throws]
      show ?thesis unfolding w'
        by (auto simp: defs)
    next
      case Never_returns
      with st pc f kl show ?thesis by (simp add: run_step_def)
    qed
  qed
qed

lemma reach_inv_run_step:
  assumes "reach_inv p c w" and "run_step p c w = Some w'"
  shows "reach_inv p c w'"
proof -
  from assms(2) have w': "w' = the (run_step p c w)" by simp
  note defs = run_step_def reach_inv_def creator_inv_def spawned_inv_def events_of_def
      sem_signal_def init_trace_def call_trace_def pthread_setname_np_def invocations_def
      set_names_def names_of_def
  show ?thesis
  proof (cases "rpc w")
    case R_unstarted
    with assms(2) show ?thesis by (simp add: run_step_def)
  next
    case R_tls_thread
    with assms(1) length_c_str_substr [of "arg_name c"] show ?thesis unfolding w'
      by (cases "cpc w"; cases "arg_cb c") (simp_all add: defs split: ending.splits)
  next
    case R_tls_name
    with assms(1) length_c_str_substr [of "arg_name c"] show ?thesis unfolding w'
      by (cases "cpc w"; cases "arg_cb c") (simp_all add: defs split: ending.splits)
  next
    case R_id
    with assms(1) length_c_str_substr [of "arg_name c"] show ?thesis unfolding w'
      by (cases "cpc w"; cases "arg_cb c") (simp_all add: defs split: ending.splits)
  next
    case R_setname
    with assms(1) length_c_str_substr [of "arg_name c"] show ?thesis unfolding w'
      by (cases "cpc w"; cases "arg_cb c") (simp_all add: defs split: ending.splits)
  next
    case R_swap
    with assms(1) length_c_str_substr [of "arg_name c"] show ?thesis unfolding w'
      by (cases "cpc w"; cases "arg_cb c") (simp_all add: defs split: ending.splits)
  next
    case R_signal
    with assms(1) length_c_str_substr [of "arg_name c"] show ?thesis unfolding w'
      by (cases "cpc w"; cases "arg_cb c") (simp_all add: defs split: ending.splits)
  next
    case R_call
    with assms(1) length_c_str_substr [of "arg_name c"] show ?thesis unfolding w'
      by (cases "cpc w"; cases "arg_cb c") (simp_all add: defs split: ending.splits)
  next
    case R_return
    with assms(1) length_c_str_substr [of "arg_name c"] show ?thesis unfolding w'
      by (cases "cpc w"; cases "arg_cb c") (simp_all add: defs split: ending.splits)
  next
    case (R_in_cb k)
    from reach_inv_in_cb [OF assms(1) this assms(2)] show ?thesis .
  next
    case R_exited
    with assms(2) show ?thesis by (simp add: run_step_def)
  next
    case (R_terminated e)
    with assms(2) show ?thesis by (simp add: run_step_def)
  qed
qed

lemma reach_inv_step:
  assumes "reach_inv p c w" and "step p c t w = Some w'"
  shows "reach_inv p c w'"
  by (cases t; cases "rpc w")
     (use assms in \<open>auto simp: step_def intro: reach_inv_ctor_step reach_inv_run_step\<close>)

lemma reach_inv_exec: "reach_inv p c w \<Longrightarrow> reach_inv p c (exec p c sched w)"
proof (induction sched arbitrary: w)
  case Nil
  then show ?case by simp
next
  case (Cons t ts)
  show ?case
  proof (cases "step p c t w")
    case None
    with Cons show ?thesis by simp
  next
    case (Some w')
    with Cons.prems have "reach_inv p c w'" by (rule reach_inv_step)
    with Cons.IH Some show ?thesis by simp
  qed
qed

lemma reach_inv_construct: "reach_inv p c (construct p c sched)"
  unfolding construct_def by (rule reach_inv_exec [OF reach_inv_entry])


lemma exec_append: "exec p c (xs @ ys) w = exec p c ys (exec p c xs w)"
  by (induction xs arbitrary: w) simp_all

lemmas world_defs = construct_def ctor_entry_def step_def ctor_step_def run_step_def
  sem_wait_def sem_signal_def Semaphore_init_def pthread_setname_np_def c_str_def substr_def
  GetThreadId_def tls_init_def SetName_def

lemma step_events:
  assumes "step p c t w = Some w'"
  shows "\<exists>xs. events w' = events w @ xs"
proof (cases t)
  case Creator
  with assms show ?thesis
    by (auto simp: step_def ctor_step_def split: run_pc.splits ctor_pc.splits if_splits option.splits)
next
  case Spawned
  with assms show ?thesis
    by (auto simp: step_def run_step_def
        split: run_pc.splits if_splits option.splits ending.splits prod.splits)
qed

lemma exec_events: "\<exists>xs. events (exec p c sched w) = events w @ xs"
proof (induction sched arbitrary: w)
  case Nil
  show ?case by simp
next
  case (Cons t ts)
  show ?case
  proof (cases "step p c t w")
    case None
    with Cons [of w] show ?thesis by simp
  next
    case (Some w')
    from step_events [OF Some] obtain xs where "events w' = events w @ xs" ..
    moreover from Cons [of w'] obtain ys where "events (exec p c ts w') = events w' @ ys" ..
    ultimately show ?thesis using Some by simp
  qed
qed

lemma done_steps_terminated: "7 \<le> done_steps c (R_terminated e)"
  by (cases e) simp_all

lemma invoke_next:
  assumes "reach_inv p c w" and "arg_cb c = Some f" and "6 \<le> done_steps c (rpc w)"
  shows "7 \<le> done_steps c (rpc (exec p c [Spawned] w))"
proof (cases "rpc w")
  case R_call
  with assms show ?thesis
    by (simp add: reach_inv_def spawned_inv_def step_def run_step_def)
next
  case (R_in_cb k)
  show ?thesis
  proof (cases "step p c Spawned w")
    case None
    with R_in_cb show ?thesis by simp
  next
    case (Some w')
    from reach_inv_step [OF assms(1) Some] assms(2) have "rpc w' \<noteq> R_terminated Bad_function_call"
      by (auto simp: reach_inv_def spawned_inv_def)
    moreover from Some R_in_cb have "rpc w' = R_in_cb (Suc k) \<or> rpc w' = R_return \<or> (\<exists>e. rpc w' = R_terminated e)"
      by (auto simp: step_def run_step_def split: option.splits if_splits ending.splits prod.splits)
    ultimately have "7 \<le> done_steps c (rpc w')"
      using done_steps_terminated by auto
    with Some show ?thesis by simp
  qed
next
  case (R_terminated e)
  then show ?thesis
    by (simp add: step_def done_steps_terminated)
qed (use assms in \<open>simp_all add: step_def run_step_def\<close>)

lemma owner_inv_join:
  assumes "th \<noteq> 0" and "owner_inv th s"
  shows "owner_inv th (snd (join rt s))"
  using assms
  by (cases s) (auto simp: owner_inv_def join_def releases_def)

lemma owner_inv_joins:
  assumes "th \<noteq> 0" and "owner_inv th s"
  shows "owner_inv th (joins rts s)"
  using assms(2)
proof (induction rts arbitrary: s)
  case Nil
  then show ?case by simp
next
  case (Cons rt rts)
  from owner_inv_join [OF assms(1) Cons.prems] have "owner_inv th (snd (join rt s))" .
  then show ?case by (simp add: Cons.IH)
qed

lemma owner_inv_start:
  "attached (m_thread h) (calls k) \<Longrightarrow> owner_inv (m_thread h) (h, k)"
  by (simp add: owner_inv_def attached_def)

lemma owner_inv_field:
  assumes "th \<noteq> 0" and "owner_inv th s"
  shows "(m_thread (fst s) \<noteq> 0) = attached th (calls (snd s))"
  using assms by (auto simp: owner_inv_def attached_def)







section \<open>The claims\<close>



text \<open>
  C2, as the code has it. A non-empty callable is invoked at most once in every reachable
  world, by the new thread only (line 108), never by the creating thread; it has been invoked
  exactly once as soon as the new thread is past line 108, which one more step of the new
  thread brings about from every world in which the constructor has returned; and once it
  has been invoked exactly once it stays so in every later world, however the callable
  ends. An empty \<open>std::function\<close> is never invoked.
\<close>

theorem work_invoked_once_by_spawned_thread:
  assumes "w = construct p c sched"
  shows "(arg_cb c = None \<longrightarrow> invocations w = []) \<and>
         (\<forall>f. arg_cb c = Some f \<longrightarrow>
            (invocations w = [] \<or> invocations w = [(Spawned, Ev_invoke f)]) \<and>
            (7 \<le> done_steps c (rpc w) \<longrightarrow> invocations w = [(Spawned, Ev_invoke f)]) \<and>
            (cpc w = K_returned \<longrightarrow>
               invocations (construct p c (sched @ [Spawned])) = [(Spawned, Ev_invoke f)]) \<and>
            (invocations w = [(Spawned, Ev_invoke f)] \<longrightarrow>
               (\<forall>more. invocations (construct p c (sched @ more)) = [(Spawned, Ev_invoke f)]))) \<and>
         (\<forall>g. (Creator, Ev_invoke g) \<notin> set (events w))"
proof -
  have inv: "reach_inv p c w" unfolding assms by (rule reach_inv_construct)
  then have shape: "invocations w =
      (if 7 \<le> done_steps c (rpc w)
       then (case arg_cb c of None \<Rightarrow> [] | Some f \<Rightarrow> [(Spawned, Ev_invoke f)]) else [])"
    by (simp add: reach_inv_def spawned_inv_def)
  have shape': "invocations (construct p c s) =
      (if 7 \<le> done_steps c (rpc (construct p c s))
       then (case arg_cb c of None \<Rightarrow> [] | Some f \<Rightarrow> [(Spawned, Ev_invoke f)]) else [])" for s
    using reach_inv_construct [of p c s] by (simp add: reach_inv_def spawned_inv_def)
  from shape have a: "arg_cb c = None \<longrightarrow> invocations w = []"
    by simp
  have only: "invocations w = [] \<or> (\<exists>f. invocations w = [(Spawned, Ev_invoke f)])"
  proof (cases "arg_cb c")
    case None
    with shape have "invocations w = []" by simp
    then show ?thesis ..
  next
    case (Some f)
    with shape have "invocations w = (if 7 \<le> done_steps c (rpc w) then [(Spawned, Ev_invoke f)] else [])"
      by simp
    then show ?thesis by (cases "7 \<le> done_steps c (rpc w)") simp_all
  qed
  have b: "(Creator, Ev_invoke g) \<notin> set (events w)" for g
  proof
    assume "(Creator, Ev_invoke g) \<in> set (events w)"
    then have mem: "(Creator, Ev_invoke g) \<in> set (invocations w)"
      by (simp add: invocations_def)
    from only show False
    proof
      assume "invocations w = []"
      with mem show False by simp
    next
      assume "\<exists>f. invocations w = [(Spawned, Ev_invoke f)]"
      then obtain f where "invocations w = [(Spawned, Ev_invoke f)]" ..
      with mem show False by simp
    qed
  qed
  have d: "(invocations w = [] \<or> invocations w = [(Spawned, Ev_invoke f)]) \<and>
            (7 \<le> done_steps c (rpc w) \<longrightarrow> invocations w = [(Spawned, Ev_invoke f)]) \<and>
            (cpc w = K_returned \<longrightarrow>
               invocations (construct p c (sched @ [Spawned])) = [(Spawned, Ev_invoke f)]) \<and>
            (invocations w = [(Spawned, Ev_invoke f)] \<longrightarrow>
               (\<forall>more. invocations (construct p c (sched @ more)) = [(Spawned, Ev_invoke f)]))"
    if f: "arg_cb c = Some f" for f
  proof -
    from shape f have d1: "invocations w = [] \<or> invocations w = [(Spawned, Ev_invoke f)]"
      and d2: "7 \<le> done_steps c (rpc w) \<longrightarrow> invocations w = [(Spawned, Ev_invoke f)]"
      by simp_all
    have d3: "invocations (construct p c (sched @ [Spawned])) = [(Spawned, Ev_invoke f)]"
      if ret: "cpc w = K_returned"
    proof -
      from inv ret have n: "6 \<le> done_steps c (rpc w)"
        by (simp add: reach_inv_def creator_inv_def)
      have w2: "construct p c (sched @ [Spawned]) = exec p c [Spawned] w"
        by (simp only: construct_def exec_append assms)
      from invoke_next [OF inv f n] have "7 \<le> done_steps c (rpc (construct p c (sched @ [Spawned])))"
        by (simp only: w2)
      with shape' [of "sched @ [Spawned]"] f show ?thesis by simp
    qed
    have d4: "invocations (construct p c (sched @ more)) = [(Spawned, Ev_invoke f)]"
      if once: "invocations w = [(Spawned, Ev_invoke f)]" for more
    proof -
      have "construct p c (sched @ more) = exec p c more w"
        by (simp only: construct_def exec_append assms)
      with exec_events [of p c more w] obtain xs
        where "events (construct p c (sched @ more)) = events w @ xs" by auto
      then have "invocations (construct p c (sched @ more)) =
          invocations w @ filter (\<lambda>e. is_invoke (snd e)) xs"
        by (simp add: invocations_def)
      with once have "invocations (construct p c (sched @ more)) \<noteq> []" by simp
      with shape' [of "sched @ more"] f show ?thesis by (simp split: if_splits)
    qed
    from d1 d2 d3 d4 show ?thesis by blast
  qed
  from a b d show ?thesis by blast
qed

theorem work_invoked_once_by_spawned_thread_witness:
  "arg_cb c_demo = Some f_demo \<and>
   cpc (construct p_ok c_demo sched_init) = K_returned \<and>
   invocations (construct p_ok c_demo sched_init) = [] \<and>
   invocations (construct p_ok c_demo (sched_init @ [Spawned])) = [(Spawned, Ev_invoke f_demo)] \<and>
   7 \<le> done_steps c_demo (rpc (construct p_ok c_demo sched_full)) \<and>
   invocations (construct p_ok c_demo sched_full) = [(Spawned, Ev_invoke f_demo)] \<and>
   invocations (construct p_ok c_demo (sched_full @ [Spawned, Creator])) = [(Spawned, Ev_invoke f_demo)] \<and>
   arg_cb c_throws = Some f_throws \<and>
   rpc (construct p_ok c_throws (sched_init @ [Spawned, Spawned])) = R_terminated Cb_exception \<and>
   invocations (construct p_ok c_throws (sched_init @ [Spawned, Spawned])) = [(Spawned, Ev_invoke f_throws)] \<and>
   arg_cb c_empty = None \<and>
   invocations (construct p_ok c_empty (sched_init @ [Spawned])) = []"
proof -
  have a: "arg_cb c_demo = Some f_demo" "arg_cb c_empty = None" "arg_cb c_throws = Some f_throws"
    by (simp_all add: c_demo_def c_empty_def c_throws_def)
  have r: "cpc (construct p_ok c_demo sched_init) = K_returned"
    by (simp add: world_defs p_ok_def c_demo_def f_demo_def sched_init_def)
  have i: "invocations (construct p_ok c_demo sched_init) = []"
    by (simp add: world_defs invocations_def p_ok_def c_demo_def f_demo_def sched_init_def)
  have x: "7 \<le> done_steps c_demo (rpc (construct p_ok c_demo sched_full))"
    by (simp add: world_defs names_of_def p_ok_def c_demo_def f_demo_def sched_full_def)
  have t: "rpc (construct p_ok c_throws (sched_init @ [Spawned, Spawned])) = R_terminated Cb_exception"
    by (simp add: world_defs p_ok_def c_throws_def f_throws_def sched_init_def)
  then have t7: "7 \<le> done_steps c_throws (rpc (construct p_ok c_throws (sched_init @ [Spawned, Spawned])))"
    by simp
  from work_invoked_once_by_spawned_thread [OF refl, where p = p_ok and c = c_demo and sched = sched_init]
       work_invoked_once_by_spawned_thread [OF refl, where p = p_ok and c = c_demo and sched = sched_full]
       work_invoked_once_by_spawned_thread [OF refl, where p = p_ok and c = c_throws and sched = "sched_init @ [Spawned, Spawned]"]
       work_invoked_once_by_spawned_thread [OF refl, where p = p_ok and c = c_empty and sched = "sched_init @ [Spawned]"]
       a r i x t t7
  show ?thesis by simp
qed

text \<open>
  C2, as stated, has the callable of every successfully constructed handle invoked exactly
  once. With an empty \<open>std::function\<close> the constructor returns the object all the same;
  line 108 then throws \<open>std::bad_function_call\<close>, which ends the process: nothing has been
  invoked and no thread can take another step.
\<close>

theorem empty_callable_never_invoked:
  "arg_cb c_empty = None \<and>
   ctor_result (construct p_ok c_empty (sched_init @ [Spawned])) =
     Some (Inr \<lparr>m_id = 4242, m_thread = 140, m_cb = None,
                m_name = ''worker-thread-number-one'', m_semaphore = 0\<rparr>) \<and>
   rpc (construct p_ok c_empty (sched_init @ [Spawned])) = R_terminated Bad_function_call \<and>
   invocations (construct p_ok c_empty (sched_init @ [Spawned])) = [] \<and>
   step p_ok c_empty Spawned (construct p_ok c_empty (sched_init @ [Spawned])) = None \<and>
   step p_ok c_empty Creator (construct p_ok c_empty (sched_init @ [Spawned])) = None"
  by (simp add: world_defs ctor_result_def invocations_def p_ok_def c_empty_def sched_init_def)






text \<open>
  C5. \<open>join\<close> on an object whose \<open>m_thread\<close> is 0 returns normally and changes nothing
  and calls nothing; that is the case for a second \<open>join\<close> after one that returned
  normally, and for any \<open>join\<close> once the thread resource is no longer attached.
\<close>

theorem join_without_thread_is_noop:
  "(m_thread h = 0 \<longrightarrow> join rt (h, k) = (Inr (), (h, k))) \<and>
   (fst (join rt (h, k)) = Inr () \<longrightarrow>
      join rt' (snd (join rt (h, k))) = (Inr (), snd (join rt (h, k)))) \<and>
   (m_thread h \<noteq> 0 \<and> attached (m_thread h) (calls k) \<and>
    \<not> attached (m_thread h) (calls (snd (joins rts (h, k)))) \<longrightarrow>
      join rt (joins rts (h, k)) = (Inr (), joins rts (h, k)))"
proof -
  have a: "join rt (h, k) = (Inr (), (h, k))" if "m_thread h = 0"
    using that by (simp add: join_def)
  have b: "join rt' (snd (join rt (h, k))) = (Inr (), snd (join rt (h, k)))"
    if "fst (join rt (h, k)) = Inr ()"
    using that by (auto simp: join_def split: if_splits)
  have d: "join rt (joins rts (h, k)) = (Inr (), joins rts (h, k))"
    if "m_thread h \<noteq> 0" and "attached (m_thread h) (calls k)"
      and "\<not> attached (m_thread h) (calls (snd (joins rts (h, k))))"
  proof -
    from that(1,2) have "owner_inv (m_thread h) (joins rts (h, k))"
      by (intro owner_inv_joins owner_inv_start)
    with that(1,3) have "m_thread (fst (joins rts (h, k))) = 0"
      using owner_inv_field by blast
    then show ?thesis by (cases "joins rts (h, k)") (simp add: join_def)
  qed
  from a b d show ?thesis by blast
qed

theorem join_without_thread_is_noop_witness:
  "fst (join 0 (h_demo, k_demo)) = Inr () \<and>
   join 0 (snd (join 0 (h_demo, k_demo))) = (Inr (), snd (join 0 (h_demo, k_demo))) \<and>
   m_thread (h_demo\<lparr>m_thread := 0\<rparr>) = 0 \<and>
   join 3 (h_demo\<lparr>m_thread := 0\<rparr>, k_demo) = (Inr (), (h_demo\<lparr>m_thread := 0\<rparr>, k_demo)) \<and>
   m_thread h_demo \<noteq> 0 \<and> attached (m_thread h_demo) (calls k_demo) \<and>
   \<not> attached (m_thread h_demo) (calls (snd (joins [35, 0] (h_demo, k_demo)))) \<and>
   join 3 (joins [35, 0] (h_demo, k_demo)) = (Inr (), joins [35, 0] (h_demo, k_demo))"
proof -
  have f: "fst (join 0 (h_demo, k_demo)) = Inr ()"
    by (simp add: join_def h_demo_def)
  have z: "m_thread (h_demo\<lparr>m_thread := 0\<rparr>) = 0" by simp
  have g: "m_thread h_demo \<noteq> 0" "attached (m_thread h_demo) (calls k_demo)"
    "\<not> attached (m_thread h_demo) (calls (snd (joins [35, 0] (h_demo, k_demo))))"
    by (simp_all add: join_def h_demo_def k_demo_def attached_def releases_def)
  from join_without_thread_is_noop [of h_demo 0 k_demo 0 "[35, 0]"]
       join_without_thread_is_noop [of "h_demo\<lparr>m_thread := 0\<rparr>" 3 k_demo 0 "[]"]
       join_without_thread_is_noop [of h_demo 3 k_demo 0 "[35, 0]"] f z g
  show ?thesis by simp
qed

text \<open>
  C6, as the code has it. When \<open>pthread_join\<close> returns a code other than 0, \<open>join\<close> writes
  the code and the name to \<open>cerr\<close> and throws \<open>std::logic_error\<close> with the fixed message
  \<open>pthread_join error\<close>; \<open>m_thread\<close> (and every other member) keeps its value, so a later
  \<open>join\<close> calls \<open>pthread_join\<close> on the same id again and, if that succeeds, returns
  normally.
\<close>

theorem join_failure_keeps_thread:
  assumes "m_thread h \<noteq> 0" and "rt \<noteq> 0"
  shows "join rt (h, k) =
           (Inl (Logic_error ''pthread_join error''),
            (h, k\<lparr>calls := calls k @ [Pthread_join (m_thread h) rt],
                  os_cerr := os_cerr k @ [Out_str ''pthread_join failed, rt = '', Out_int rt,
                                          Out_str '', name = '', Out_str (m_name h), Out_endl]\<rparr>)) \<and>
         m_thread (fst (snd (join rt (h, k)))) = m_thread h \<and>
         calls (snd (snd (join 0 (snd (join rt (h, k)))))) =
           calls k @ [Pthread_join (m_thread h) rt, Pthread_join (m_thread h) 0] \<and>
         fst (join 0 (snd (join rt (h, k)))) = Inr ()"
  using assms by (simp add: join_def)

theorem join_failure_keeps_thread_witness:
  "m_thread h_demo \<noteq> 0 \<and> (35::int) \<noteq> 0 \<and>
   fst (join 35 (h_demo, k_demo)) = Inl (Logic_error ''pthread_join error'') \<and>
   m_thread (fst (snd (join 35 (h_demo, k_demo)))) = 140 \<and>
   calls (snd (snd (join 0 (snd (join 35 (h_demo, k_demo)))))) =
     [Pthread_join 140 35, Pthread_join 140 0]"
proof -
  have a: "m_thread h_demo \<noteq> 0" by (simp add: h_demo_def)
  have b: "(35::int) \<noteq> 0" by simp
  from join_failure_keeps_thread [OF a b, of k_demo] a b show ?thesis
    by (simp add: h_demo_def k_demo_def join_def)
qed

text \<open>
  C6, as stated, asks for an error that carries the platform's code. The exception is the
  same value for \<open>EDEADLK\<close> (35) and for \<open>EINVAL\<close> (22).
\<close>

theorem join_error_without_code:
  "fst (join 35 (h_demo, k_demo)) = Inl (Logic_error ''pthread_join error'') \<and>
   fst (join 22 (h_demo, k_demo)) = fst (join 35 (h_demo, k_demo))"
  by (simp add: join_def h_demo_def)

text \<open>
  C7. The destructor of an object whose \<open>m_thread\<close> is not 0 makes exactly one platform
  call, \<open>pthread_detach\<close> on that id (which does not wait for the thread), and sets
  \<open>m_thread\<close> to 0. After a \<open>join\<close> that returned normally it makes no call and
  changes nothing. In terms of the resource: for an object that starts with an attached
  thread, after any sequence of \<open>join\<close> calls the destructor detaches the thread if it is
  still attached and does nothing if it is not.
\<close>

theorem dtor_detaches_attached_thread:
  "(m_thread h \<noteq> 0 \<longrightarrow>
      dtor (h, k) = (h\<lparr>m_thread := 0\<rparr>, k\<lparr>calls := calls k @ [Pthread_detach (m_thread h)]\<rparr>)) \<and>
   (fst (join rt (h, k)) = Inr () \<longrightarrow> dtor (snd (join rt (h, k))) = snd (join rt (h, k))) \<and>
   (m_thread h \<noteq> 0 \<and> attached (m_thread h) (calls k) \<longrightarrow>
      (attached (m_thread h) (calls (snd (joins rts (h, k)))) \<longrightarrow>
         dtor (joins rts (h, k)) =
           ((fst (joins rts (h, k)))\<lparr>m_thread := 0\<rparr>,
            (snd (joins rts (h, k)))\<lparr>calls := calls (snd (joins rts (h, k))) @ [Pthread_detach (m_thread h)]\<rparr>)) \<and>
      (\<not> attached (m_thread h) (calls (snd (joins rts (h, k)))) \<longrightarrow>
         dtor (joins rts (h, k)) = joins rts (h, k)))"
proof -
  have a: "dtor (h, k) = (h\<lparr>m_thread := 0\<rparr>, k\<lparr>calls := calls k @ [Pthread_detach (m_thread h)]\<rparr>)"
    if "m_thread h \<noteq> 0"
    using that by (simp add: dtor_def)
  have b: "dtor (snd (join rt (h, k))) = snd (join rt (h, k))" if "fst (join rt (h, k)) = Inr ()"
    using that by (auto simp: join_def dtor_def split: if_splits)
  have d: "(attached (m_thread h) (calls (snd (joins rts (h, k)))) \<longrightarrow>
         dtor (joins rts (h, k)) =
           ((fst (joins rts (h, k)))\<lparr>m_thread := 0\<rparr>,
            (snd (joins rts (h, k)))\<lparr>calls := calls (snd (joins rts (h, k))) @ [Pthread_detach (m_thread h)]\<rparr>)) \<and>
      (\<not> attached (m_thread h) (calls (snd (joins rts (h, k)))) \<longrightarrow>
         dtor (joins rts (h, k)) = joins rts (h, k))"
    if nz: "m_thread h \<noteq> 0" and at: "attached (m_thread h) (calls k)"
  proof -
    from nz at have inv: "owner_inv (m_thread h) (joins rts (h, k))"
      by (intro owner_inv_joins owner_inv_start)
    obtain h' k' where s: "joins rts (h, k) = (h', k')" by (cases "joins rts (h, k)")
    from inv nz show ?thesis unfolding s
      by (auto simp: owner_inv_def attached_def dtor_def)
  qed
  from a b d show ?thesis by blast
qed

theorem dtor_detaches_attached_thread_witness:
  "m_thread h_demo \<noteq> 0 \<and> attached (m_thread h_demo) (calls k_demo) \<and>
   dtor (h_demo, k_demo) = (h_demo\<lparr>m_thread := 0\<rparr>, k_demo\<lparr>calls := [Pthread_detach 140]\<rparr>) \<and>
   fst (join 0 (h_demo, k_demo)) = Inr () \<and>
   dtor (snd (join 0 (h_demo, k_demo))) = snd (join 0 (h_demo, k_demo)) \<and>
   attached (m_thread h_demo) (calls (snd (joins [35] (h_demo, k_demo)))) \<and>
   calls (snd (dtor (joins [35] (h_demo, k_demo)))) = [Pthread_join 140 35, Pthread_detach 140] \<and>
   \<not> attached (m_thread h_demo) (calls (snd (joins [35, 0] (h_demo, k_demo)))) \<and>
   dtor (joins [35, 0] (h_demo, k_demo)) = joins [35, 0] (h_demo, k_demo)"
proof -
  have a: "m_thread h_demo \<noteq> 0" "attached (m_thread h_demo) (calls k_demo)"
    "fst (join 0 (h_demo, k_demo)) = Inr ()"
    "attached (m_thread h_demo) (calls (snd (joins [35] (h_demo, k_demo))))"
    "\<not> attached (m_thread h_demo) (calls (snd (joins [35, 0] (h_demo, k_demo))))"
    by (simp_all add: join_def h_demo_def k_demo_def attached_def releases_def)
  have b: "calls (snd (joins [35] (h_demo, k_demo))) = [Pthread_join 140 35]"
    "m_thread h_demo = 140" "calls k_demo = []"
    by (simp_all add: join_def h_demo_def k_demo_def)
  from dtor_detaches_attached_thread [of h_demo k_demo 0 "[35]"] dtor_detaches_attached_thread [of h_demo k_demo 0 "[35, 0]"] a b
  show ?thesis by simp
qed

text \<open>
  C8. \<open>SetName n\<close> is defined unless \<open>t_thread\<close> points to an object that no longer
  exists. When it is, \<open>GetName\<close> on the calling thread returns \<open>n\<close> afterwards,
  \<open>GetThis\<close> is unchanged, the object \<open>GetThis\<close> points to (if any) has \<open>m_name = n\<close>
  and is otherwise unchanged, and no other object is touched.
\<close>

theorem SetName_updates_tls_and_handle:
  "(SetName n (tv, hp) = None \<longleftrightarrow> (\<exists>a. GetThis tv = Some a \<and> hp a = None)) \<and>
   (\<forall>tv' hp'. SetName n (tv, hp) = Some (tv', hp') \<longrightarrow>
      GetName tv' = n \<and>
      GetThis tv' = GetThis tv \<and>
      (\<forall>a. GetThis tv = Some a \<longrightarrow> (\<exists>h. hp a = Some h \<and> hp' a = Some (h\<lparr>m_name := n\<rparr>))) \<and>
      (\<forall>b. GetThis tv \<noteq> Some b \<longrightarrow> hp' b = hp b))"
  by (auto simp: SetName_def GetThis_def GetName_def split: option.splits)

theorem SetName_updates_tls_and_handle_witness:
  "GetThis tv_demo = Some 4096 \<and>
   SetName ''renamed'' (tv_demo, [4096 \<mapsto> h_demo, 8192 \<mapsto> h_demo]) \<noteq> None \<and>
   GetName (fst (the (SetName ''renamed'' (tv_demo, [4096 \<mapsto> h_demo, 8192 \<mapsto> h_demo])))) = ''renamed'' \<and>
   map_option m_name (snd (the (SetName ''renamed'' (tv_demo, [4096 \<mapsto> h_demo, 8192 \<mapsto> h_demo]))) 4096) = Some ''renamed'' \<and>
   map_option m_name (snd (the (SetName ''renamed'' (tv_demo, [4096 \<mapsto> h_demo, 8192 \<mapsto> h_demo]))) 8192) = Some ''worker-1'' \<and>
   GetThis tls_init = None \<and>
   GetName (fst (the (SetName ''renamed'' (tls_init, [4096 \<mapsto> h_demo])))) = ''renamed'' \<and>
   map_option m_name (snd (the (SetName ''renamed'' (tls_init, [4096 \<mapsto> h_demo]))) 4096) = Some ''worker-1''"
proof -
  have a: "GetThis tv_demo = Some 4096" "GetThis tls_init = None"
    by (simp_all add: GetThis_def tv_demo_def tls_init_def)
  obtain tv1 hp1 where s1: "SetName ''renamed'' (tv_demo, [4096 \<mapsto> h_demo, 8192 \<mapsto> h_demo]) = Some (tv1, hp1)"
    by (simp add: SetName_def tv_demo_def)
  obtain tv2 hp2 where s2: "SetName ''renamed'' (tls_init, [4096 \<mapsto> h_demo]) = Some (tv2, hp2)"
    by (simp add: SetName_def tls_init_def)
  from SetName_updates_tls_and_handle [of "''renamed''" tv_demo "[4096 \<mapsto> h_demo, 8192 \<mapsto> h_demo]"]
       SetName_updates_tls_and_handle [of "''renamed''" tls_init "[4096 \<mapsto> h_demo]"] a s1 s2
  show ?thesis by (simp add: h_demo_def)
qed

text \<open>
  C9. After a successful construction only the OS-level name is cut: it is the C string of
  the first 15 characters of the \<open>name\<close> argument, so never longer than 15, different from
  a longer \<open>name\<close>, and exactly the first 15 characters when \<open>name\<close> has no NUL in it. The
  object's \<open>m_name\<close> and the new thread's thread-local name hold a whole string: the
  \<open>name\<close> argument, or the last name the callable has passed to \<open>SetName\<close> since (which
  does not reach the OS-level name).
\<close>

theorem only_os_name_truncated:
  assumes "w = construct p c sched" and "cpc w = K_returned"
  shows "comm w = c_str (substr (arg_name c) 0 15) \<and>
         length (comm w) \<le> 15 \<and>
         (15 < length (arg_name c) \<longrightarrow> comm w \<noteq> arg_name c) \<and>
         (CHR 0x00 \<notin> set (arg_name c) \<longrightarrow> comm w = take 15 (arg_name c)) \<and>
         m_name (this_obj w) = last (arg_name c # set_names w) \<and>
         GetName (tlss w Spawned) = last (arg_name c # set_names w) \<and>
         (set_names w = [] \<longrightarrow>
            m_name (this_obj w) = arg_name c \<and> GetName (tlss w Spawned) = arg_name c)"
proof -
  have inv: "reach_inv p c w" unfolding assms(1) by (rule reach_inv_construct)
  with assms(2) have n: "6 \<le> done_steps c (rpc w)"
    by (simp add: reach_inv_def creator_inv_def)
  from inv n have st: "m_name (this_obj w) = last (arg_name c # set_names w)"
    "GetName (tlss w Spawned) = last (arg_name c # set_names w)"
    "comm w = c_str (substr (arg_name c) 0 15)"
    by (simp_all add: reach_inv_def spawned_inv_def GetName_def)
  have len: "length (comm w) \<le> 15"
    unfolding st(3) by (rule length_c_str_substr)
  then have ne: "comm w \<noteq> arg_name c" if "15 < length (arg_name c)"
    using that by auto
  have tk: "comm w = take 15 (arg_name c)" if "CHR 0x00 \<notin> set (arg_name c)"
  proof -
    from that have "\<forall>x \<in> set (take 15 (arg_name c)). x \<noteq> CHR 0x00"
      by (metis in_set_takeD)
    then show ?thesis unfolding st(3) c_str_def substr_def by simp
  qed
  from st len ne tk show ?thesis by simp
qed

theorem only_os_name_truncated_witness:
  "cpc (construct p_ok c_demo sched_init) = K_returned \<and>
   15 < length (arg_name c_demo) \<and> CHR 0x00 \<notin> set (arg_name c_demo) \<and>
   set_names (construct p_ok c_demo sched_init) = [] \<and>
   m_name (this_obj (construct p_ok c_demo sched_init)) = ''worker-thread-number-one'' \<and>
   GetName (tlss (construct p_ok c_demo sched_init) Spawned) = ''worker-thread-number-one'' \<and>
   comm (construct p_ok c_demo sched_init) = ''worker-thread-n'' \<and>
   cpc (construct p_ok c_demo sched_renamed) = K_returned \<and>
   m_name (this_obj (construct p_ok c_demo sched_renamed)) = ''renamed-by-the-callable'' \<and>
   comm (construct p_ok c_demo sched_renamed) = ''worker-thread-n''"
proof -
  have r: "cpc (construct p_ok c_demo sched_init) = K_returned"
    "cpc (construct p_ok c_demo sched_renamed) = K_returned"
    by (simp_all add: world_defs p_ok_def c_demo_def f_demo_def sched_init_def sched_renamed_def)
  have l: "15 < length (arg_name c_demo)" "CHR 0x00 \<notin> set (arg_name c_demo)"
    by (simp_all add: c_demo_def)
  have s: "set_names (construct p_ok c_demo sched_init) = []"
    "set_names (construct p_ok c_demo sched_renamed) = [''renamed-by-the-callable'']"
    by (simp_all add: world_defs set_names_def p_ok_def c_demo_def f_demo_def sched_init_def
        sched_renamed_def)
  from only_os_name_truncated [OF refl r(1)] only_os_name_truncated [OF refl r(2)] r l s show ?thesis
    by (simp add: c_demo_def c_str_def substr_def)
qed

text \<open>
  C10, as the code has it. For an object that starts with an attached thread whose id is not
  0, after any sequence of \<open>join\<close> calls: \<open>m_thread\<close> is not 0 exactly while the thread
  is attached, and it is the original id or 0; at most one call has released the thread (a
  \<open>pthread_join\<close> that returned 0, or a \<open>pthread_detach\<close>); once it is released, the
  destructor and every further \<open>join\<close> make no platform call and change nothing; and after
  the destructor the field is 0 and exactly one call has released the thread.
\<close>

theorem thread_released_once:
  assumes "m_thread h \<noteq> 0" and "attached (m_thread h) (calls k)" and "s = joins rts (h, k)"
  shows "(m_thread (fst s) \<noteq> 0) = attached (m_thread h) (calls (snd s)) \<and>
         (m_thread (fst s) = m_thread h \<or> m_thread (fst s) = 0) \<and>
         releases (m_thread h) (calls (snd s)) \<le> 1 \<and>
         (\<not> attached (m_thread h) (calls (snd s)) \<longrightarrow>
            dtor s = s \<and> (\<forall>rt. join rt s = (Inr (), s))) \<and>
         m_thread (fst (dtor s)) = 0 \<and>
         releases (m_thread h) (calls (snd (dtor s))) = 1"
proof -
  from assms have inv: "owner_inv (m_thread h) s"
    by (simp add: owner_inv_joins owner_inv_start)
  obtain h' k' where s: "s = (h', k')" by (cases s)
  from inv assms(1) show ?thesis unfolding s
    by (auto simp: owner_inv_def attached_def dtor_def join_def releases_def)
qed

theorem thread_released_once_witness:
  "m_thread h_demo \<noteq> 0 \<and> attached (m_thread h_demo) (calls k_demo) \<and>
   \<not> attached (m_thread h_demo) (calls (snd (joins [35, 0, 0] (h_demo, k_demo)))) \<and>
   m_thread (fst (joins [35, 0, 0] (h_demo, k_demo))) = 0 \<and>
   releases (m_thread h_demo) (calls (snd (dtor (joins [35, 0, 0] (h_demo, k_demo))))) = 1 \<and>
   dtor (joins [35, 0, 0] (h_demo, k_demo)) = joins [35, 0, 0] (h_demo, k_demo)"
proof -
  have a: "m_thread h_demo \<noteq> 0" "attached (m_thread h_demo) (calls k_demo)"
    by (simp_all add: h_demo_def k_demo_def attached_def releases_def)
  have b: "\<not> attached (m_thread h_demo) (calls (snd (joins [35, 0, 0] (h_demo, k_demo))))"
    by (simp add: join_def h_demo_def k_demo_def attached_def releases_def)
  from thread_released_once [OF a refl, of "[35, 0, 0]"] a b show ?thesis
    by (auto simp: attached_def)
qed

text \<open>
  C10, as stated, has the id passed to \<open>pthread_join\<close> or \<open>pthread_detach\<close> at most once
  in total. A \<open>join\<close> that fails leaves \<open>m_thread\<close> in place, so the next \<open>join\<close>, or the
  destructor, passes the same id again.
\<close>

theorem thread_passed_twice:
  "calls (snd (joins [35, 0] (h_demo, k_demo))) = [Pthread_join 140 35, Pthread_join 140 0] \<and>
   passes 140 (calls (snd (joins [35, 0] (h_demo, k_demo)))) = 2 \<and>
   calls (snd (dtor (joins [35] (h_demo, k_demo)))) = [Pthread_join 140 35, Pthread_detach 140] \<and>
   passes 140 (calls (snd (dtor (joins [35] (h_demo, k_demo))))) = 2"
  by (simp add: join_def dtor_def passes_def h_demo_def k_demo_def)

end
